theory Spec2Isabelle
  imports Main
begin

section \<open>Values, options and errors of \<open>src/index.js\<close>\<close>

text \<open>
  The argument \<open>code\<close> of \<open>stripCommentsFromCode\<close> is an arbitrary JavaScript value; only
  the distinction that \<open>typeof\<close> makes matters. A text is a list of characters, one element
  per position counted by \<open>String.prototype.length\<close>.
\<close>

datatype js_value =
    JString string
  | JNumber int
  | JBoolean bool
  | JNull
  | JUndefined
  | JObject

fun typeof :: "js_value \<Rightarrow> string" where
  "typeof (JString s) = ''string''"
| "typeof (JNumber n) = ''number''"
| "typeof (JBoolean b) = ''boolean''"
| "typeof JNull = ''object''"
| "typeof JUndefined = ''undefined''"
| "typeof JObject = ''object''"

text \<open>
  A parser plugin is a name, or a name with an options object
  (\<open>['decorators', { decoratorsBeforeExport: true }]\<close>).
\<close>

datatype plugin =
    Plugin string
  | PluginWithOptions string "(string \<times> bool) list"

text \<open>
  \<open>{ start, end }\<close>: the two fields read from a comment node and kept in a range.
  (\<open>end\<close> is reserved in Isabelle, hence \<open>end'\<close>.) A comment of the parser carries
  \<open>int option\<close> fields, \<open>None\<close> standing for a value whose \<open>typeof\<close> is not
  \<open>'number'\<close>; a range handed to \<open>removeRanges\<close> carries numbers.
\<close>

record 'n span =
  start :: 'n
  end' :: 'n

text \<open>The node \<open>parser.parse\<close> returns; \<open>comments = None\<close> when \<open>ast.comments\<close> is not an array.\<close>

record file_node =
  comments :: "int option span list option"

text \<open>
  A value thrown by the parser, reduced to its \<open>message\<close> property (\<open>None\<close> when the
  thrown value has none). One call of \<open>parser.parse\<close> either throws or returns a value,
  which is \<open>None\<close> when falsy. The parser is not part of the repository: it is a parameter
  of the model, called with the text and the plugin list (the other options are constants).
\<close>

datatype thrown = Thrown (message: "string option")

datatype parse_outcome =
    Threw thrown
  | Returned "file_node option"

type_synonym parser = "string \<Rightarrow> plugin list \<Rightarrow> parse_outcome"

text \<open>\<open>new TypeError(msg)\<close>, and \<open>new Error(msg)\<close> with its \<open>cause\<close>.\<close>

datatype error =
    TypeError string
  | Error string "thrown option"

record parser_options =
  filename :: "string option"
  plugins :: "plugin list option"

record strip_result =
  code :: string
  commentCount :: nat
  removedChars :: int
  removedRanges :: "int span list"

section \<open>The plugin tables\<close>

definition COMMON_PLUGINS :: "plugin list" where
  "COMMON_PLUGINS =
    [Plugin ''classProperties'',
     Plugin ''classPrivateProperties'',
     Plugin ''classPrivateMethods'',
     Plugin ''dynamicImport'',
     Plugin ''optionalCatchBinding'',
     Plugin ''optionalChaining'',
     Plugin ''nullishCoalescingOperator'',
     Plugin ''objectRestSpread'',
     Plugin ''topLevelAwait'',
     Plugin ''throwExpressions'',
     Plugin ''numericSeparator'',
     Plugin ''importMeta'',
     Plugin ''exportDefaultFrom'',
     Plugin ''doExpressions'',
     Plugin ''functionBind'']"

definition LANGUAGE_PLUGIN_SETS :: "plugin list list" where
  "LANGUAGE_PLUGIN_SETS =
    [[Plugin ''jsx'', Plugin ''typescript''],
     [Plugin ''jsx'', Plugin ''flow'', Plugin ''flowComments''],
     [Plugin ''jsx''],
     []]"

definition DECORATOR_PLUGINS :: "plugin list" where
  "DECORATOR_PLUGINS =
    [PluginWithOptions ''decorators'' [(''decoratorsBeforeExport'', True)],
     Plugin ''decorators-legacy'']"

text \<open>The two nested \<open>for\<close> loops push onto \<open>sets\<close>; each is a \<open>fold\<close> over its table.\<close>

definition buildDefaultPluginSets :: "plugin list list" where
  "buildDefaultPluginSets =
    (let sets = fold (\<lambda>decoratorPlugin sets.
                   fold (\<lambda>languagePlugins sets.
                           sets @ [languagePlugins @ [decoratorPlugin] @ COMMON_PLUGINS])
                        LANGUAGE_PLUGIN_SETS sets)
                 DECORATOR_PLUGINS []
     in sets @ [COMMON_PLUGINS])"

definition DEFAULT_PLUGIN_SETS :: "plugin list list" where
  "DEFAULT_PLUGIN_SETS = buildDefaultPluginSets"

section \<open>\<open>removeRanges\<close>\<close>

text \<open>
  \<open>String.prototype.slice(start, end)\<close> on integer arguments: a negative index counts
  from the end, both indices are clamped to the text, and \<open>end\<close> defaults to the length.
\<close>

definition slice :: "'a list \<Rightarrow> int \<Rightarrow> int option \<Rightarrow> 'a list" where
  "slice s a b =
    (let len = int (length s);
         lo = (if a < 0 then max (len + a) 0 else min a len);
         hi = (case b of
                 None \<Rightarrow> len
               | Some e \<Rightarrow> (if e < 0 then max (len + e) 0 else min e len))
     in take (nat (max (hi - lo) 0)) (drop (nat lo) s))"

record 'a erased =
  output' :: "'a list"
  removed :: int

record 'a erase_state = "'a erased" +
  cursor :: int

text \<open>The body of the \<open>for\<close> loop of \<open>removeRanges\<close>; \<open>continue\<close> leaves the state as it is.\<close>

definition removeStep :: "'a list \<Rightarrow> int span \<Rightarrow> 'a erase_state \<Rightarrow> 'a erase_state" where
  "removeStep source rng st =
    (if start rng < cursor st then st
     else st\<lparr>output' := output' st @ slice source (cursor st) (Some (start rng)),
             removed := removed st + (end' rng - start rng),
             cursor := end' rng\<rparr>)"

definition removeRanges :: "'a list \<Rightarrow> int span list \<Rightarrow> 'a erased" where
  "removeRanges source ranges =
    (let st = fold (removeStep source) ranges \<lparr>output' = [], removed = 0, cursor = 0\<rparr>
     in \<lparr>output' = output' st @ slice source (cursor st) None, removed = removed st\<rparr>)"

section \<open>\<open>stripCommentsFromCode\<close>\<close>

text \<open>
  The loop over \<open>pluginSets\<close>: \<open>ast\<close> and \<open>lastError\<close> are the two variables of the
  source; \<open>calls\<close> records the plugin lists \<open>parser.parse\<close> was called with, in order.
  A call that returns ends the loop (\<open>break\<close>); a call that throws sets \<open>lastError\<close>.
\<close>

record resolve_state =
  ast :: "file_node option"
  lastError :: "thrown option"
  calls :: "plugin list list"

fun tryPluginSets :: "parser \<Rightarrow> string \<Rightarrow> plugin list list \<Rightarrow> resolve_state \<Rightarrow> resolve_state" where
  "tryPluginSets parse text [] st = st"
| "tryPluginSets parse text (ps # rest) st =
    (case parse text ps of
       Returned tree \<Rightarrow> st\<lparr>ast := tree, calls := calls st @ [ps]\<rparr>
     | Threw e \<Rightarrow> tryPluginSets parse text rest (st\<lparr>lastError := Some e, calls := calls st @ [ps]\<rparr>))"

text \<open>\<open>customPlugins ? [customPlugins] : DEFAULT_PLUGIN_SETS\<close>\<close>

definition pluginSets :: "parser_options \<Rightarrow> plugin list list" where
  "pluginSets parserOptions =
    (case plugins parserOptions of
       Some customPlugins \<Rightarrow> [customPlugins]
     | None \<Rightarrow> DEFAULT_PLUGIN_SETS)"

definition resolve :: "parser \<Rightarrow> string \<Rightarrow> parser_options \<Rightarrow> resolve_state" where
  "resolve parse text parserOptions =
    tryPluginSets parse text (pluginSets parserOptions)
      \<lparr>ast = None, lastError = None, calls = []\<rparr>"

text \<open>\<open>lastError?.message ?? 'Unknown parser error'\<close>\<close>

fun lastMessage :: "thrown option \<Rightarrow> string" where
  "lastMessage (Some (Thrown (Some m))) = m"
| "lastMessage _ = ''Unknown parser error''"

text \<open>
  \<open>.map(({ start, end }) => ({ start, end })).filter(...)\<close>: a comment is kept when both
  fields are numbers and \<open>start < end\<close>.
\<close>

fun numericRange :: "int option span \<Rightarrow> int span option" where
  "numericRange c =
    (case (start c, end' c) of
       (Some s, Some e) \<Rightarrow> if s < e then Some \<lparr>start = s, end' = e\<rparr> else None
     | _ \<Rightarrow> None)"

text \<open>\<open>Array.isArray(ast.comments) ? ast.comments : []\<close>\<close>

definition commentsOf :: "file_node \<Rightarrow> int option span list" where
  "commentsOf tree = (case comments tree of Some arr \<Rightarrow> arr | None \<Rightarrow> [])"

text \<open>
  \<open>.sort((a, b) => a.start - b.start)\<close> is a stable sort by \<open>start\<close>, as \<open>sort_key\<close> is.
\<close>

definition normalizeRanges :: "int option span list \<Rightarrow> int span list" where
  "normalizeRanges cs = sort_key start (List.map_filter numericRange cs)"

definition stripCommentsFromCode :: "parser \<Rightarrow> js_value \<Rightarrow> parser_options \<Rightarrow> error + strip_result" where
  "stripCommentsFromCode parse input parserOptions =
    (case input of
       JString text \<Rightarrow>
         (let name = (case filename parserOptions of None \<Rightarrow> ''unknown'' | Some f \<Rightarrow> f);
              st = resolve parse text parserOptions
          in case ast st of
               None \<Rightarrow>
                 Inl (Error (''Failed to parse '' @ name @ '': '' @ lastMessage (lastError st))
                            (lastError st))
             | Some tree \<Rightarrow>
                 (let cs = commentsOf tree
                  in if cs = [] then
                       Inr \<lparr>code = text, commentCount = 0, removedChars = 0, removedRanges = []\<rparr>
                     else
                       (let ranges = normalizeRanges cs;
                            res = removeRanges text ranges
                        in Inr \<lparr>code = output' res,
                                commentCount = length ranges,
                                removedChars = removed res,
                                removedRanges = ranges\<rparr>)))
     | _ \<Rightarrow> Inl (TypeError ''Code must be a string.''))"

section \<open>What the eraser is specified to compute\<close>

text \<open>
  The pass as the specification words it, from a cursor on: a range whose start precedes the
  cursor is skipped entirely; any other range contributes \<open>sourceText[cursor:range.start]\<close>
  to the output, moves the cursor to \<open>range.end\<close> and adds \<open>range.end - range.start\<close> to
  the total; after the last range the tail \<open>sourceText[cursor:]\<close> is appended.
\<close>

fun erasePass :: "'a list \<Rightarrow> int \<Rightarrow> int span list \<Rightarrow> 'a list \<times> int" where
  "erasePass sourceText cur [] = (slice sourceText cur None, 0)"
| "erasePass sourceText cur (r # rs) =
    (if start r < cur then erasePass sourceText cur rs
     else (slice sourceText cur (Some (start r)) @ fst (erasePass sourceText (end' r) rs),
           (end' r - start r) + snd (erasePass sourceText (end' r) rs)))"

text \<open>
  The ranges actually excised by a forward pass that starts with the cursor at \<open>cur\<close>:
  a range whose start precedes the cursor is skipped, any other range is excised and moves
  the cursor to its end.
\<close>

fun excised :: "int \<Rightarrow> int span list \<Rightarrow> int span list" where
  "excised cur [] = []"
| "excised cur (r # rs) =
    (if start r < cur then excised cur rs else r # excised (end' r) rs)"

text \<open>Position \<open>i\<close> of the text lies inside one of the ranges.\<close>

definition covered :: "int span list \<Rightarrow> nat \<Rightarrow> bool" where
  "covered rs i = (\<exists>r \<in> set rs. start r \<le> int i \<and> int i < end' r)"

text \<open>
  The text with the ranges cut out: the characters at the positions from \<open>c\<close> on that no
  range covers, each position once and in the order of the text.
\<close>

definition survivingFrom :: "nat \<Rightarrow> 'a list \<Rightarrow> int span list \<Rightarrow> 'a list" where
  "survivingFrom c source rs =
    map (\<lambda>i. source ! i) (filter (\<lambda>i. \<not> covered rs i) [c ..< length source])"

definition surviving :: "'a list \<Rightarrow> int span list \<Rightarrow> 'a list" where
  "surviving source rs = survivingFrom 0 source rs"

text \<open>The sum of \<open>end - start\<close> over a list of ranges.\<close>

definition totalLength :: "int span list \<Rightarrow> int" where
  "totalLength rs = (\<Sum>r \<leftarrow> rs. end' r - start r)"

text \<open>Two half-open ranges share a position; no two entries of a list do.\<close>

definition overlaps :: "int span \<Rightarrow> int span \<Rightarrow> bool" where
  "overlaps p q = (start p < end' q \<and> start q < end' p)"

fun nonOverlapping :: "int span list \<Rightarrow> bool" where
  "nonOverlapping [] = True"
| "nonOverlapping (r # rs) = ((\<forall>q \<in> set rs. \<not> overlaps r q) \<and> nonOverlapping rs)"

text \<open>A call of the parser on this plugin list throws.\<close>

definition throws :: "parser \<Rightarrow> string \<Rightarrow> plugin list \<Rightarrow> bool" where
  "throws parse text ps = (case parse text ps of Threw e \<Rightarrow> True | Returned tree \<Rightarrow> False)"

section \<open>A sample parser and sample inputs\<close>

text \<open>
  A stand-in for the parser, used to evaluate the model on concrete inputs. The first text
  parses only without the \<open>typescript\<close> and \<open>flow\<close> plugins and holds two
  comments (reported in reverse order); the second holds no comment; the third is reported
  with three comments of which the second overlaps the first; every other text is rejected,
  with a message that depends on the plugin list.
\<close>

definition sampleTree :: file_node where
  "sampleTree = \<lparr>comments = Some
     [\<lparr>start = Some 19, end' = Some 23\<rparr>, \<lparr>start = Some 11, end' = Some 18\<rparr>]\<rparr>"

definition overlapTree :: file_node where
  "overlapTree = \<lparr>comments = Some
     [\<lparr>start = Some 1, end' = Some 4\<rparr>, \<lparr>start = Some 2, end' = Some 6\<rparr>,
      \<lparr>start = Some 7, end' = Some 9\<rparr>]\<rparr>"

definition sampleParse :: parser where
  "sampleParse text ps =
    (if text = ''let a = 1; /* b */ // c'' then
       (if Plugin ''typescript'' \<in> set ps \<or> Plugin ''flow'' \<in> set ps
        then Threw (Thrown (Some ''Unexpected token (1:4)''))
        else Returned (Some sampleTree))
     else if text = ''let a = 1;  '' then Returned (Some \<lparr>comments = Some []\<rparr>)
     else if text = ''abcdefghij'' then Returned (Some overlapTree)
     else if Plugin ''jsx'' \<in> set ps then Threw (Thrown (Some ''Unterminated JSX contents (1:3)''))
     else Threw (Thrown (Some ''Unexpected token (1:0)'')))"

definition sampleOptions :: parser_options where
  "sampleOptions = \<lparr>filename = Some ''a.js'', plugins = None\<rparr>"

definition sampleResult :: strip_result where
  "sampleResult = \<lparr>code = ''let a = 1;  '', commentCount = 2, removedChars = 11,
     removedRanges = [\<lparr>start = 11, end' = 18\<rparr>, \<lparr>start = 19, end' = 23\<rparr>]\<rparr>"

definition sampleRanges :: "int span list" where
  "sampleRanges = [\<lparr>start = 1, end' = 4\<rparr>, \<lparr>start = 2, end' = 6\<rparr>, \<lparr>start = 7, end' = 9\<rparr>]"

definition overlapResult :: strip_result where
  "overlapResult =
    \<lparr>code = ''aefgj'', commentCount = 3, removedChars = 5, removedRanges = sampleRanges\<rparr>"

text \<open>
  The parser on the two texts of a comment that holds a line break. In
  \<open>a /*\<newline>*/ ++b\<close> the comment counts as a line terminator, so a semicolon is inserted
  after \<open>a\<close> and the text parses, under every plugin list, with one comment at positions
  2 to 7. Without the comment, \<open>a  ++b\<close> is a postfix increment followed by an identifier
  on the same line, which every plugin list rejects. (The wording of the message plays no
  part.) Other texts are not needed and are rejected.
\<close>

definition lineBreakText :: string where
  "lineBreakText = ''a /*\<newline>*/ ++b''"

definition lineBreakParse :: parser where
  "lineBreakParse text ps =
    (if text = lineBreakText then
       Returned (Some \<lparr>comments = Some [\<lparr>start = Some 2, end' = Some 7\<rparr>]\<rparr>)
     else Threw (Thrown (Some ''Missing semicolon. (1:5)'')))"

definition defaultOptions :: parser_options where
  "defaultOptions = \<lparr>filename = None, plugins = None\<rparr>"

section \<open>Slices\<close>

lemma take_drop_nth:
  assumes "n + m \<le> length xs"
  shows "take m (drop n xs) = map (\<lambda>i. xs ! i) [n ..< n + m]"
proof -
  have "take m (drop n (map (\<lambda>i. xs ! i) [0 ..< length xs])) = map (\<lambda>i. xs ! i) [n ..< n + m]"
    using assms by (simp add: take_map drop_map)
  then show ?thesis by (simp add: map_nth)
qed

lemma slice_between:
  assumes "0 \<le> c" "c \<le> s"
  shows "slice source c (Some s) =
    map (\<lambda>i. source ! i) [min (nat c) (length source) ..< min (nat s) (length source)]"
proof -
  let ?n = "min (nat c) (length source)"
  let ?k = "min (nat s) (length source)"
  have le: "?n \<le> ?k" using assms by auto
  have lo: "nat (min c (int (length source))) = ?n" using assms by auto
  have hi: "nat (max (min s (int (length source)) - min c (int (length source))) 0) = ?k - ?n"
    using assms by auto
  have "slice source c (Some s) =
      take (nat (max (min s (int (length source)) - min c (int (length source))) 0))
        (drop (nat (min c (int (length source)))) source)"
    using assms by (simp add: slice_def Let_def)
  also have "\<dots> = take (?k - ?n) (drop ?n source)"
    by (simp only: lo hi)
  also have "\<dots> = map (\<lambda>i. source ! i) [?n ..< ?n + (?k - ?n)]"
    by (rule take_drop_nth) (use le in auto)
  finally show ?thesis using le by simp
qed

lemma slice_tail:
  assumes "0 \<le> c"
  shows "slice source c None = map (\<lambda>i. source ! i) [nat c ..< length source]"
proof (cases "nat c \<le> length source")
  case True
  have "slice source c None = take (length source - nat c) (drop (nat c) source)"
    using assms True by (auto simp: slice_def Let_def min_def max_def nat_diff_distrib)
  also have "\<dots> = map (\<lambda>i. source ! i) [nat c ..< nat c + (length source - nat c)]"
    by (rule take_drop_nth) (use True in auto)
  finally show ?thesis using True by simp
next
  case False
  then show ?thesis using assms by (auto simp: slice_def Let_def min_def max_def)
qed

lemma length_slice_between:
  assumes "0 \<le> c" "c \<le> s" "s \<le> int (length source)"
  shows "int (length (slice source c (Some s))) = s - c"
  using assms by (auto simp: slice_def Let_def min_def max_def)

lemma length_slice_tail:
  assumes "0 \<le> c" "c \<le> int (length source)"
  shows "int (length (slice source c None)) = int (length source) - c"
  using assms by (auto simp: slice_def Let_def min_def max_def)

section \<open>The loop of \<open>removeRanges\<close>\<close>

lemma upt_split3:
  assumes "n \<le> a" "a \<le> b" "b \<le> (L::nat)"
  shows "[n ..< L] = [n ..< a] @ [a ..< b] @ [b ..< L]"
proof -
  obtain j where j: "a = n + j" using assms(1) le_Suc_ex by blast
  obtain k where k: "b = a + k" using assms(2) le_Suc_ex by blast
  obtain m where m: "L = b + m" using assms(3) le_Suc_ex by blast
  have "[n ..< b + m] = [n ..< b] @ [b ..< b + m]"
    by (rule upt_add_eq_append) (simp add: j k)
  moreover have "[n ..< a + k] = [n ..< a] @ [a ..< a + k]"
    by (rule upt_add_eq_append) (simp add: j)
  ultimately show ?thesis by (simp add: k m)
qed

lemma upt_clamp: "[min c L ..< L] = [c ..< (L::nat)]"
  by (cases "c \<le> L") (auto simp: min_def)

lemma survivingFrom_step:
  assumes c: "0 \<le> c" "c \<le> start r" and r: "start r < end' r"
    and E: "\<forall>q \<in> set E. end' r \<le> start q"
  shows "survivingFrom (nat c) source (r # E) =
    slice source c (Some (start r)) @ survivingFrom (nat (end' r)) source E"
proof -
  let ?L = "length source"
  let ?n = "min (nat c) ?L"
  let ?a = "min (nat (start r)) ?L"
  let ?b = "min (nat (end' r)) ?L"
  let ?keep = "\<lambda>rs i. \<not> covered rs i"
  have ord: "?n \<le> ?a" "?a \<le> ?b" "?b \<le> ?L"
    using c r by auto
  have split: "[nat c ..< ?L] = [?n ..< ?a] @ [?a ..< ?b] @ [?b ..< ?L]"
    using upt_split3 [OF ord] upt_clamp [of "nat c" ?L] by simp
  have before: "filter (?keep (r # E)) [?n ..< ?a] = [?n ..< ?a]"
  proof (rule filter_True, rule ballI)
    fix i assume i: "i \<in> set [?n ..< ?a]"
    from i have "int i < start r" by auto
    moreover from this r E have "\<forall>q \<in> set E. int i < start q" by fastforce
    ultimately show "\<not> covered (r # E) i" by (auto simp: covered_def)
  qed
  have inside: "filter (?keep (r # E)) [?a ..< ?b] = []"
  proof (rule filter_False, rule ballI)
    fix i assume i: "i \<in> set [?a ..< ?b]"
    then have "start r \<le> int i" "int i < end' r" using c by (auto simp: min_def split: if_splits)
    then show "\<not> \<not> covered (r # E) i" by (auto simp: covered_def)
  qed
  have after: "filter (?keep (r # E)) [?b ..< ?L] = filter (?keep E) [nat (end' r) ..< ?L]"
  proof -
    have "filter (?keep (r # E)) [?b ..< ?L] = filter (?keep E) [?b ..< ?L]"
    proof (rule filter_cong [OF refl])
      fix i assume i: "i \<in> set [?b ..< ?L]"
      then have "end' r \<le> int i" by (auto simp: min_def split: if_splits)
      then show "?keep (r # E) i = ?keep E i" by (auto simp: covered_def)
    qed
    then show ?thesis by (simp only: upt_clamp)
  qed
  have "survivingFrom (nat c) source (r # E) =
      map (\<lambda>i. source ! i) [?n ..< ?a] @ survivingFrom (nat (end' r)) source E"
    unfolding survivingFrom_def split filter_append before inside after by simp
  moreover have "slice source c (Some (start r)) = map (\<lambda>i. source ! i) [?n ..< ?a]"
    by (rule slice_between [OF c])
  ultimately show ?thesis by simp
qed

lemma excised_subset: "set (excised c rs) \<subseteq> set rs"
  by (induction rs arbitrary: c) auto

lemma excised_start_ge:
  assumes "\<forall>r \<in> set rs. start r < end' r" "q \<in> set (excised c rs)"
  shows "c \<le> start q"
  using assms
proof (induction rs arbitrary: c)
  case Nil
  then show ?case by simp
next
  case (Cons r rs)
  show ?case
  proof (cases "start r < c")
    case True
    with Cons show ?thesis by simp
  next
    case False
    with Cons.prems have "q = r \<or> q \<in> set (excised (end' r) rs)" by simp
    then show ?thesis
    proof
      assume "q = r" with False show ?thesis by simp
    next
      assume "q \<in> set (excised (end' r) rs)"
      with Cons have "end' r \<le> start q" by simp
      moreover from Cons.prems have "start r < end' r" by simp
      ultimately show ?thesis using False by simp
    qed
  qed
qed

lemma fold_removeStep_erasePass:
  "output' (fold (removeStep source) rs st)
      @ slice source (cursor (fold (removeStep source) rs st)) None
    = output' st @ fst (erasePass source (cursor st) rs)
   \<and> removed (fold (removeStep source) rs st) = removed st + snd (erasePass source (cursor st) rs)"
  by (induction rs arbitrary: st) (simp_all add: removeStep_def)

lemma removeRanges_erasePass:
  "(output' (removeRanges source rs), removed (removeRanges source rs)) = erasePass source 0 rs"
  using fold_removeStep_erasePass [of source rs "\<lparr>output' = [], removed = 0, cursor = 0\<rparr>"]
  by (simp add: removeRanges_def Let_def prod_eq_iff)

lemma fold_removeStep_removed:
  "removed (fold (removeStep source) rs st) = removed st + totalLength (excised (cursor st) rs)"
  by (induction rs arbitrary: st) (auto simp: removeStep_def totalLength_def)

lemma fold_removeStep_output:
  assumes "0 \<le> cursor st" "\<forall>r \<in> set rs. start r < end' r"
  shows "output' (fold (removeStep source) rs st)
           @ slice source (cursor (fold (removeStep source) rs st)) None =
         output' st @ survivingFrom (nat (cursor st)) source (excised (cursor st) rs)"
  using assms
proof (induction rs arbitrary: st)
  case Nil
  have "filter (\<lambda>i. \<not> covered [] i) [nat (cursor st) ..< length source] = [nat (cursor st) ..< length source]"
    by (simp add: covered_def)
  with Nil show ?case by (simp add: slice_tail survivingFrom_def)
next
  case (Cons r rs)
  show ?case
  proof (cases "start r < cursor st")
    case True
    with Cons show ?thesis by (simp add: removeStep_def)
  next
    case False
    let ?st = "removeStep source r st"
    have st: "cursor ?st = end' r"
      "output' ?st = output' st @ slice source (cursor st) (Some (start r))"
      using False by (simp_all add: removeStep_def)
    from Cons.prems have r: "start r < end' r" and rs: "\<forall>r \<in> set rs. start r < end' r" by simp_all
    from False Cons.prems r have pos: "0 \<le> cursor ?st" by (simp add: st)
    have E: "\<forall>q \<in> set (excised (end' r) rs). end' r \<le> start q"
      using excised_start_ge [OF rs] by blast
    have "output' (fold (removeStep source) (r # rs) st)
           @ slice source (cursor (fold (removeStep source) (r # rs) st)) None =
          output' ?st @ survivingFrom (nat (cursor ?st)) source (excised (cursor ?st) rs)"
      using Cons.IH [OF pos rs] by simp
    also have "\<dots> = output' st @ (slice source (cursor st) (Some (start r))
          @ survivingFrom (nat (end' r)) source (excised (end' r) rs))"
      by (simp add: st)
    also have "slice source (cursor st) (Some (start r))
          @ survivingFrom (nat (end' r)) source (excised (end' r) rs) =
        survivingFrom (nat (cursor st)) source (r # excised (end' r) rs)"
      by (rule survivingFrom_step [OF Cons.prems(1) _ r E, symmetric]) (use False in simp)
    finally show ?thesis using False by simp
  qed
qed

lemma fold_removeStep_length:
  assumes "0 \<le> cursor st" "cursor st \<le> int (length source)"
    and "\<forall>r \<in> set rs. start r < end' r \<and> end' r \<le> int (length source)"
  shows "0 \<le> cursor (fold (removeStep source) rs st)
       \<and> cursor (fold (removeStep source) rs st) \<le> int (length source)
       \<and> int (length (output' (fold (removeStep source) rs st)))
           + removed (fold (removeStep source) rs st)
           - cursor (fold (removeStep source) rs st)
         = int (length (output' st)) + removed st - cursor st"
  using assms
proof (induction rs arbitrary: st)
  case Nil
  then show ?case by simp
next
  case (Cons r rs)
  show ?case
  proof (cases "start r < cursor st")
    case True
    with Cons show ?thesis by (simp add: removeStep_def)
  next
    case False
    let ?st = "removeStep source r st"
    from Cons.prems have r: "start r < end' r" "end' r \<le> int (length source)" by simp_all
    have len: "int (length (slice source (cursor st) (Some (start r)))) = start r - cursor st"
      by (rule length_slice_between) (use False Cons.prems r in auto)
    have st: "cursor ?st = end' r"
      "removed ?st = removed st + (end' r - start r)"
      "int (length (output' ?st)) = int (length (output' st)) + (start r - cursor st)"
      using False len by (simp_all add: removeStep_def)
    have "0 \<le> cursor ?st" "cursor ?st \<le> int (length source)"
      using False Cons.prems r by (simp_all add: st)
    from Cons.IH [OF this] Cons.prems(3) show ?thesis
      by (simp add: st)
  qed
qed

section \<open>Normalised ranges and the result of a successful parse\<close>

lemma slice_all: "slice source 0 None = source"
  by (simp add: slice_def)

lemma removeRanges_Nil: "removeRanges source [] = \<lparr>output' = source, removed = 0\<rparr>"
  by (simp add: removeRanges_def slice_all)

lemma numericRange_Some:
  "numericRange c = Some r \<Longrightarrow> start r < end' r \<and> start c = Some (start r) \<and> end' c = Some (end' r)"
  by (auto split: option.splits if_splits)

lemma set_map_filter: "set (List.map_filter f xs) = {y. \<exists>x \<in> set xs. f x = Some y}"
  by (induction xs) (auto simp: List.map_filter_simps split: option.splits)

lemma length_map_filter_filter:
  "length (List.map_filter f xs) = length (filter (\<lambda>x. f x \<noteq> None) xs)"
  by (induction xs) (auto simp: List.map_filter_simps split: option.splits)

lemma numericRange_defined:
  "numericRange c \<noteq> None \<longleftrightarrow> (\<exists>s e. start c = Some s \<and> end' c = Some e \<and> s < e)"
  by (auto split: option.splits)

lemma normalizeRanges_Nil: "normalizeRanges [] = []"
  by (simp add: normalizeRanges_def List.map_filter_simps)

lemma normalizeRanges_sorted: "sorted (map start (normalizeRanges cs))"
  by (simp add: normalizeRanges_def)

lemma normalizeRanges_proper:
  "r \<in> set (normalizeRanges cs) \<Longrightarrow> start r < end' r"
proof -
  assume "r \<in> set (normalizeRanges cs)"
  then obtain c where "numericRange c = Some r"
    by (auto simp: normalizeRanges_def set_map_filter)
  then show ?thesis by (rule numericRange_Some [THEN conjunct1])
qed

lemma normalizeRanges_count:
  "length (normalizeRanges cs) =
    length (filter (\<lambda>c. \<exists>s e. start c = Some s \<and> end' c = Some e \<and> s < e) cs)"
proof -
  have "filter (\<lambda>c. numericRange c \<noteq> None) cs =
      filter (\<lambda>c. \<exists>s e. start c = Some s \<and> end' c = Some e \<and> s < e) cs"
    by (rule filter_cong [OF refl]) (rule numericRange_defined)
  then show ?thesis
    by (simp only: normalizeRanges_def length_sort length_map_filter_filter)
qed

lemma strip_parsed:
  assumes "ast (resolve parse text opts) = Some tree"
  shows "stripCommentsFromCode parse (JString text) opts =
    Inr \<lparr>code = output' (removeRanges text (normalizeRanges (commentsOf tree))),
         commentCount = length (normalizeRanges (commentsOf tree)),
         removedChars = removed (removeRanges text (normalizeRanges (commentsOf tree))),
         removedRanges = normalizeRanges (commentsOf tree)\<rparr>"
proof (cases "commentsOf tree = []")
  case True
  with assms show ?thesis
    by (simp add: stripCommentsFromCode_def normalizeRanges_Nil removeRanges_Nil)
next
  case False
  with assms show ?thesis
    by (simp add: stripCommentsFromCode_def Let_def)
qed

lemma strip_unparsed:
  assumes "ast (resolve parse text opts) = None"
  shows "stripCommentsFromCode parse (JString text) opts =
    Inl (Error (''Failed to parse ''
                 @ (case filename opts of None \<Rightarrow> ''unknown'' | Some f \<Rightarrow> f)
                 @ '': '' @ lastMessage (lastError (resolve parse text opts)))
               (lastError (resolve parse text opts)))"
  using assms by (simp add: stripCommentsFromCode_def Let_def)

lemma strip_Inr_parsed:
  assumes "stripCommentsFromCode parse (JString text) opts = Inr res"
  obtains tree where "ast (resolve parse text opts) = Some tree"
  using assms by (cases "ast (resolve parse text opts)") (auto simp: strip_unparsed)

lemma removeRanges_removed: "removed (removeRanges source rs) = totalLength (excised 0 rs)"
  by (simp add: removeRanges_def Let_def fold_removeStep_removed)

lemma removeRanges_output:
  assumes "\<forall>r \<in> set rs. start r < end' r"
  shows "output' (removeRanges source rs) = surviving source (excised 0 rs)"
  using fold_removeStep_output [of "\<lparr>output' = [], removed = 0, cursor = 0\<rparr>" rs source] assms
  by (simp add: removeRanges_def Let_def surviving_def)

lemma removeRanges_length:
  assumes "\<forall>r \<in> set rs. start r < end' r \<and> end' r \<le> int (length source)"
  shows "int (length (output' (removeRanges source rs))) + removed (removeRanges source rs)
    = int (length source)"
proof -
  let ?st = "fold (removeStep source) rs \<lparr>output' = [], removed = 0, cursor = 0\<rparr>"
  have inv: "0 \<le> cursor ?st \<and> cursor ?st \<le> int (length source)
      \<and> int (length (output' ?st)) + removed ?st - cursor ?st = 0"
    using fold_removeStep_length [of "\<lparr>output' = [], removed = 0, cursor = 0\<rparr>" source rs] assms
    by simp
  then have "int (length (slice source (cursor ?st) None)) = int (length source) - cursor ?st"
    by (simp add: length_slice_tail)
  with inv show ?thesis by (simp add: removeRanges_def Let_def)
qed

lemma length_surviving: "length (surviving source rs) \<le> length source"
proof -
  have "length (filter (\<lambda>i. \<not> covered rs i) [0 ..< length source]) \<le> length [0 ..< length source]"
    by (rule length_filter_le)
  then show ?thesis by (simp add: surviving_def survivingFrom_def)
qed

lemma totalLength_excised_le:
  assumes "\<forall>r \<in> set rs. start r < end' r"
  shows "totalLength (excised c rs) \<le> totalLength rs"
  using assms
proof (induction rs arbitrary: c)
  case Nil
  then show ?case by (simp add: totalLength_def)
next
  case (Cons r rs)
  then have "totalLength (excised c rs) \<le> totalLength rs"
    "totalLength (excised (end' r) rs) \<le> totalLength rs" "start r < end' r"
    by simp_all
  then show ?case by (simp add: totalLength_def)
qed

lemma excised_all:
  assumes "sorted (map start rs)" "nonOverlapping rs"
    and "\<forall>r \<in> set rs. start r < end' r \<and> c \<le> start r"
  shows "excised c rs = rs"
  using assms
proof (induction rs arbitrary: c)
  case Nil
  then show ?case by simp
next
  case (Cons r rs)
  have "\<forall>q \<in> set rs. start q < end' q \<and> end' r \<le> start q"
  proof
    fix q assume q: "q \<in> set rs"
    with Cons.prems have "start r \<le> start q" "start q < end' q" "\<not> overlaps r q" by auto
    then show "start q < end' q \<and> end' r \<le> start q" by (auto simp: overlaps_def)
  qed
  with Cons.prems have "excised (end' r) rs = rs"
    by (intro Cons.IH) auto
  with Cons.prems show ?case by simp
qed

section \<open>The loop over the plugin sets\<close>

lemma DEFAULT_PLUGIN_SETS_literal:
  "DEFAULT_PLUGIN_SETS =
    [[Plugin ''jsx'', Plugin ''typescript'',
        PluginWithOptions ''decorators'' [(''decoratorsBeforeExport'', True)]] @ COMMON_PLUGINS,
     [Plugin ''jsx'', Plugin ''flow'', Plugin ''flowComments'',
        PluginWithOptions ''decorators'' [(''decoratorsBeforeExport'', True)]] @ COMMON_PLUGINS,
     [Plugin ''jsx'',
        PluginWithOptions ''decorators'' [(''decoratorsBeforeExport'', True)]] @ COMMON_PLUGINS,
     [PluginWithOptions ''decorators'' [(''decoratorsBeforeExport'', True)]] @ COMMON_PLUGINS,
     [Plugin ''jsx'', Plugin ''typescript'', Plugin ''decorators-legacy''] @ COMMON_PLUGINS,
     [Plugin ''jsx'', Plugin ''flow'', Plugin ''flowComments'', Plugin ''decorators-legacy'']
        @ COMMON_PLUGINS,
     [Plugin ''jsx'', Plugin ''decorators-legacy''] @ COMMON_PLUGINS,
     [Plugin ''decorators-legacy''] @ COMMON_PLUGINS,
     COMMON_PLUGINS]"
  by (simp add: DEFAULT_PLUGIN_SETS_def buildDefaultPluginSets_def LANGUAGE_PLUGIN_SETS_def
      DECORATOR_PLUGINS_def)

lemma pluginSets_nonempty: "pluginSets parserOptions \<noteq> []"
  by (simp add: pluginSets_def DEFAULT_PLUGIN_SETS_literal split: option.splits)

lemma tryPluginSets_calls:
  "calls (tryPluginSets parse text pss st) =
    calls st @ take (Suc (length (takeWhile (throws parse text) pss))) pss"
  by (induction pss arbitrary: st) (auto simp: throws_def split: parse_outcome.splits)

lemma tryPluginSets_first:
  assumes "find (\<lambda>ps. \<not> throws parse text ps) pss = Some ps" "parse text ps = Returned tree"
  shows "ast (tryPluginSets parse text pss st) = tree"
  using assms
  by (induction pss arbitrary: st) (auto simp: throws_def split: parse_outcome.splits if_splits)

lemma tryPluginSets_exhausted:
  assumes "pss \<noteq> []" "\<forall>ps \<in> set pss. \<exists>e. parse text ps = Threw e"
    and "parse text (last pss) = Threw e"
  shows "ast (tryPluginSets parse text pss st) = ast st
       \<and> lastError (tryPluginSets parse text pss st) = Some e"
  using assms
proof (induction pss arbitrary: st)
  case Nil
  then show ?case by simp
next
  case (Cons ps rest)
  from Cons.prems obtain e' where e': "parse text ps = Threw e'" by auto
  show ?case
  proof (cases "rest = []")
    case True
    with Cons.prems e' show ?thesis by simp
  next
    case False
    with Cons.prems have "\<forall>ps \<in> set rest. \<exists>e. parse text ps = Threw e"
      "parse text (last rest) = Threw e" by simp_all
    from Cons.IH [OF False this] e' show ?thesis by simp
  qed
qed

lemma resolve_filename:
  "resolve parse text (parserOptions\<lparr>filename := f\<rparr>) = resolve parse text parserOptions"
  by (simp add: resolve_def pluginSets_def)

section \<open>Evaluating the samples\<close>

lemma sample_strip:
  "stripCommentsFromCode sampleParse (JString ''let a = 1; /* b */ // c'') sampleOptions
    = Inr sampleResult"
  by code_simp

lemma sample_overlap:
  "stripCommentsFromCode sampleParse (JString ''abcdefghij'') sampleOptions = Inr overlapResult"
  by code_simp

lemma sample_rejected_strip:
  "stripCommentsFromCode sampleParse (JString ''let a = '') sampleOptions =
    Inl (Error ''Failed to parse a.js: Unexpected token (1:0)''
               (Some (Thrown (Some ''Unexpected token (1:0)''))))"
  by code_simp

lemma sample_clean_ast:
  "ast (resolve sampleParse ''let a = 1;  '' sampleOptions) = Some \<lparr>comments = Some []\<rparr>"
  by code_simp

lemma sample_overlap_ast:
  "ast (resolve sampleParse ''abcdefghij'' sampleOptions) = Some overlapTree"
  by code_simp

lemma sample_rejected:
  "\<forall>ps \<in> set (pluginSets sampleOptions). \<exists>e. sampleParse ''let a = '' ps = Threw e"
  by (simp add: sampleParse_def)

lemma sample_last:
  "sampleParse ''let a = '' (last (pluginSets sampleOptions))
    = Threw (Thrown (Some ''Unexpected token (1:0)''))"
  by code_simp

lemma sample_failing_prefix:
  "takeWhile (throws sampleParse ''let a = 1; /* b */ // c'') DEFAULT_PLUGIN_SETS
    = take 2 DEFAULT_PLUGIN_SETS"
  by code_simp

lemma sample_first_success:
  "find (\<lambda>ps. \<not> throws sampleParse ''let a = 1; /* b */ // c'' ps) DEFAULT_PLUGIN_SETS
     = Some (DEFAULT_PLUGIN_SETS ! 2)
   \<and> sampleParse ''let a = 1; /* b */ // c'' (DEFAULT_PLUGIN_SETS ! 2)
     = Returned (Some sampleTree)"
  by code_simp

lemma lineBreak_first:
  "stripCommentsFromCode lineBreakParse (JString lineBreakText) defaultOptions =
    Inr \<lparr>code = ''a  ++b'', commentCount = 1, removedChars = 5,
         removedRanges = [\<lparr>start = 2, end' = 7\<rparr>]\<rparr>"
  by code_simp

lemma lineBreak_second:
  "stripCommentsFromCode lineBreakParse (JString ''a  ++b'') defaultOptions =
    Inl (Error ''Failed to parse unknown: Missing semicolon. (1:5)''
               (Some (Thrown (Some ''Missing semicolon. (1:5)''))))"
  by code_simp

lemma sample_surviving: "surviving ''abcdefghij'' (excised 0 sampleRanges) = ''aefgj''"
  by code_simp

lemma sample_totalLength: "totalLength (excised 0 sampleRanges) = 5"
  by code_simp

lemma sample_proper: "\<forall>r \<in> set sampleRanges. start r < end' r"
  by (simp add: sampleRanges_def)

section \<open>The claims\<close>

text \<open>
  C1 (length law). Whenever \<open>stripCommentsFromCode\<close> succeeds, the length of the returned
  text plus \<open>removedChars\<close> is the length of the input text. The parser is a parameter;
  what is asked of it is that no range it reports ends beyond the text it was given (a
  comment is a range over the positions of the source text). Overlapping, duplicated and
  unordered comments are allowed.
\<close>

theorem length_law:
  assumes "stripCommentsFromCode parse (JString text) parserOptions = Inr res"
    and "\<forall>r \<in> set (removedRanges res). end' r \<le> int (length text)"
  shows "int (length (code res)) + removedChars res = int (length text)"
proof -
  from assms(1) obtain tree where tree: "ast (resolve parse text parserOptions) = Some tree"
    by (rule strip_Inr_parsed)
  let ?R = "normalizeRanges (commentsOf tree)"
  from assms(1) have res: "code res = output' (removeRanges text ?R)"
    "removedChars res = removed (removeRanges text ?R)" "removedRanges res = ?R"
    by (auto simp: strip_parsed [OF tree])
  have "\<forall>r \<in> set ?R. start r < end' r \<and> end' r \<le> int (length text)"
    using assms(2) normalizeRanges_proper by (auto simp: res)
  then show ?thesis by (simp add: res removeRanges_length)
qed

theorem length_law_witness:
  "int (length (code sampleResult)) + removedChars sampleResult = 23"
proof -
  have "\<forall>r \<in> set (removedRanges sampleResult).
      end' r \<le> int (length ''let a = 1; /* b */ // c'')"
    by (simp add: sampleResult_def)
  from length_law [OF sample_strip this] show ?thesis by simp
qed

text \<open>
  C2 (the pass of the eraser). For every text and every list of ranges with
  \<open>start < end\<close> (sorted or not), \<open>removeRanges\<close> returns the text with exactly the excised
  ranges cut out and the sum of their lengths, where the excised ranges are those selected
  by one forward pass with the cursor starting at 0: a range whose start precedes the
  cursor is skipped and counts for nothing, any other range is excised and moves the
  cursor to its end. Every surviving position of the text occurs once in the output, in
  the order of the text, so the output is never longer than the text. The loop of the
  source computes what the pass of the specification computes, slice by slice.
\<close>

theorem removeRanges_forward_pass:
  assumes "\<forall>r \<in> set ranges. start r < end' r"
  shows "removeRanges source ranges =
      \<lparr>output' = surviving source (excised 0 ranges), removed = totalLength (excised 0 ranges)\<rparr>
    \<and> (output' (removeRanges source ranges), removed (removeRanges source ranges))
        = erasePass source 0 ranges
    \<and> length (output' (removeRanges source ranges)) \<le> length source"
  using assms
  by (simp add: removeRanges_output removeRanges_removed length_surviving
      removeRanges_erasePass [symmetric])

theorem removeRanges_forward_pass_witness:
  "removeRanges ''abcdefghij'' sampleRanges = \<lparr>output' = ''aefgj'', removed = 5\<rparr>"
proof -
  have "removeRanges ''abcdefghij'' sampleRanges =
      \<lparr>output' = surviving ''abcdefghij'' (excised 0 sampleRanges),
       removed = totalLength (excised 0 sampleRanges)\<rparr>"
    by (rule removeRanges_forward_pass [OF sample_proper, THEN conjunct1])
  then show ?thesis by (simp only: sample_surviving sample_totalLength)
qed

text \<open>
  C3 (zero-comment short-circuit). When the first parse that returns yields a tree without
  comments, \<open>stripCommentsFromCode\<close> returns the input text itself, with
  \<open>commentCount = 0\<close>, \<open>removedChars = 0\<close> and \<open>removedRanges = []\<close>.
\<close>

theorem zero_comment_short_circuit:
  assumes "ast (resolve parse text parserOptions) = Some tree" and "commentsOf tree = []"
  shows "stripCommentsFromCode parse (JString text) parserOptions =
    Inr \<lparr>code = text, commentCount = 0, removedChars = 0, removedRanges = []\<rparr>"
  using assms by (simp add: stripCommentsFromCode_def)

theorem zero_comment_short_circuit_witness:
  "stripCommentsFromCode sampleParse (JString ''let a = 1;  '') sampleOptions =
    Inr \<lparr>code = ''let a = 1;  '', commentCount = 0, removedChars = 0, removedRanges = []\<rparr>"
proof -
  have "commentsOf \<lparr>comments = Some []\<rparr> = []" by (simp add: commentsOf_def)
  from zero_comment_short_circuit [OF sample_clean_ast this] show ?thesis .
qed

text \<open>
  C4 (what \<open>commentCount\<close> counts). On success, with \<open>cs\<close> the comment list of the
  tree the parser returned, \<open>commentCount\<close> is the number of entries of \<open>cs\<close> that carry
  numbers with \<open>start < end\<close>, which is also the number of the reported
  \<open>removedRanges\<close>. So when every comment of the parser is such a range, \<open>commentCount\<close>
  is the number of comments the parser found. Nothing is assumed about overlap: ranges
  that the eraser skips are counted all the same, as in the sample, where three comments
  are counted and only two are excised.
\<close>

theorem commentCount_convention:
  assumes "stripCommentsFromCode parse (JString text) parserOptions = Inr res"
    and "ast (resolve parse text parserOptions) = Some tree"
    and "comments tree = Some cs"
  shows "commentCount res =
      length (filter (\<lambda>c. \<exists>s e. start c = Some s \<and> end' c = Some e \<and> s < e) cs)
    \<and> length (removedRanges res) = commentCount res
    \<and> ((\<forall>c \<in> set cs. \<exists>s e. start c = Some s \<and> end' c = Some e \<and> s < e)
         \<longrightarrow> commentCount res = length cs)"
proof -
  from assms(3) have cs: "commentsOf tree = cs" by (simp add: commentsOf_def)
  from assms(1) have res: "commentCount res = length (normalizeRanges cs)"
    "removedRanges res = normalizeRanges cs"
    by (auto simp: strip_parsed [OF assms(2)] cs)
  have "(\<forall>c \<in> set cs. \<exists>s e. start c = Some s \<and> end' c = Some e \<and> s < e) \<longrightarrow>
      filter (\<lambda>c. \<exists>s e. start c = Some s \<and> end' c = Some e \<and> s < e) cs = cs"
    by (simp add: filter_id_conv)
  then show ?thesis
    by (auto simp: res normalizeRanges_count)
qed

theorem commentCount_convention_witness:
  "commentCount overlapResult = 3 \<and> removedChars overlapResult = (4 - 1) + (9 - 7)"
proof -
  have cs: "comments overlapTree = Some
     [\<lparr>start = Some 1, end' = Some 4\<rparr>, \<lparr>start = Some 2, end' = Some 6\<rparr>,
      \<lparr>start = Some 7, end' = Some 9\<rparr>]"
    by (simp add: overlapTree_def)
  from commentCount_convention [OF sample_overlap sample_overlap_ast cs]
  have "commentCount overlapResult = 3" by simp
  then show ?thesis by (simp add: overlapResult_def)
qed

text \<open>
  C5 (exhaustion). When the parser throws under every plugin list tried, the call fails
  with an \<open>Error\<close> (not a \<open>TypeError\<close>) whose message is \<open>Failed to parse\<close>, the file
  name (\<open>unknown\<close> when none was given), a colon, and the message thrown under the last
  plugin list; that last thrown value is the cause. No earlier message appears.
\<close>

theorem exhaustion_failure:
  assumes "\<forall>ps \<in> set (pluginSets parserOptions). \<exists>e. parse text ps = Threw e"
    and "parse text (last (pluginSets parserOptions)) = Threw (Thrown (Some m))"
  shows "stripCommentsFromCode parse (JString text) parserOptions =
    Inl (Error (''Failed to parse ''
                 @ (case filename parserOptions of None \<Rightarrow> ''unknown'' | Some f \<Rightarrow> f)
                 @ '': '' @ m)
               (Some (Thrown (Some m))))"
proof -
  have "ast (resolve parse text parserOptions) = None
      \<and> lastError (resolve parse text parserOptions) = Some (Thrown (Some m))"
    using tryPluginSets_exhausted [of "pluginSets parserOptions" parse "text" "Thrown (Some m)",
        OF pluginSets_nonempty assms]
    by (simp add: resolve_def)
  then show ?thesis by (simp add: strip_unparsed)
qed

theorem exhaustion_failure_witness:
  "stripCommentsFromCode sampleParse (JString ''let a = '') sampleOptions =
    Inl (Error ''Failed to parse a.js: Unexpected token (1:0)''
               (Some (Thrown (Some ''Unexpected token (1:0)''))))"
  using exhaustion_failure [of sampleOptions sampleParse "''let a = ''",
      OF sample_rejected sample_last]
  by (simp add: sampleOptions_def)

text \<open>
  C6 (default search order). The default table holds nine plugin lists: for the decorator
  plugin with \<open>decoratorsBeforeExport\<close> and then for \<open>decorators-legacy\<close>, the language
  lists \<open>jsx + typescript\<close>, \<open>jsx + flow + flowComments\<close>, \<open>jsx\<close> and none, each
  followed by the decorator plugin and the common plugins; last, the common plugins alone.
  Without a \<open>plugins\<close> option the parser is called on the lists of this table in order,
  on those that throw and then on the first that returns, and on no other; the tree is the
  one returned by that call.
\<close>

theorem default_search_order:
  "DEFAULT_PLUGIN_SETS =
    [[Plugin ''jsx'', Plugin ''typescript'',
        PluginWithOptions ''decorators'' [(''decoratorsBeforeExport'', True)]] @ COMMON_PLUGINS,
     [Plugin ''jsx'', Plugin ''flow'', Plugin ''flowComments'',
        PluginWithOptions ''decorators'' [(''decoratorsBeforeExport'', True)]] @ COMMON_PLUGINS,
     [Plugin ''jsx'',
        PluginWithOptions ''decorators'' [(''decoratorsBeforeExport'', True)]] @ COMMON_PLUGINS,
     [PluginWithOptions ''decorators'' [(''decoratorsBeforeExport'', True)]] @ COMMON_PLUGINS,
     [Plugin ''jsx'', Plugin ''typescript'', Plugin ''decorators-legacy''] @ COMMON_PLUGINS,
     [Plugin ''jsx'', Plugin ''flow'', Plugin ''flowComments'', Plugin ''decorators-legacy'']
        @ COMMON_PLUGINS,
     [Plugin ''jsx'', Plugin ''decorators-legacy''] @ COMMON_PLUGINS,
     [Plugin ''decorators-legacy''] @ COMMON_PLUGINS,
     COMMON_PLUGINS]
   \<and> length DEFAULT_PLUGIN_SETS = 9
   \<and> (plugins parserOptions = None \<longrightarrow>
        calls (resolve parse text parserOptions) =
          take (Suc (length (takeWhile (throws parse text) DEFAULT_PLUGIN_SETS)))
            DEFAULT_PLUGIN_SETS
      \<and> (\<forall>ps tree. find (\<lambda>ps. \<not> throws parse text ps) DEFAULT_PLUGIN_SETS = Some ps
             \<and> parse text ps = Returned tree
           \<longrightarrow> ast (resolve parse text parserOptions) = tree))"
proof (intro conjI impI allI)
  show "DEFAULT_PLUGIN_SETS =
    [[Plugin ''jsx'', Plugin ''typescript'',
        PluginWithOptions ''decorators'' [(''decoratorsBeforeExport'', True)]] @ COMMON_PLUGINS,
     [Plugin ''jsx'', Plugin ''flow'', Plugin ''flowComments'',
        PluginWithOptions ''decorators'' [(''decoratorsBeforeExport'', True)]] @ COMMON_PLUGINS,
     [Plugin ''jsx'',
        PluginWithOptions ''decorators'' [(''decoratorsBeforeExport'', True)]] @ COMMON_PLUGINS,
     [PluginWithOptions ''decorators'' [(''decoratorsBeforeExport'', True)]] @ COMMON_PLUGINS,
     [Plugin ''jsx'', Plugin ''typescript'', Plugin ''decorators-legacy''] @ COMMON_PLUGINS,
     [Plugin ''jsx'', Plugin ''flow'', Plugin ''flowComments'', Plugin ''decorators-legacy'']
        @ COMMON_PLUGINS,
     [Plugin ''jsx'', Plugin ''decorators-legacy''] @ COMMON_PLUGINS,
     [Plugin ''decorators-legacy''] @ COMMON_PLUGINS,
     COMMON_PLUGINS]"
    by (rule DEFAULT_PLUGIN_SETS_literal)
  show "length DEFAULT_PLUGIN_SETS = 9"
    by (simp add: DEFAULT_PLUGIN_SETS_literal)
next
  assume "plugins parserOptions = None"
  then show "calls (resolve parse text parserOptions) =
      take (Suc (length (takeWhile (throws parse text) DEFAULT_PLUGIN_SETS))) DEFAULT_PLUGIN_SETS"
    by (simp add: resolve_def pluginSets_def tryPluginSets_calls)
next
  fix ps tree
  assume "plugins parserOptions = None"
    and "find (\<lambda>ps. \<not> throws parse text ps) DEFAULT_PLUGIN_SETS = Some ps
      \<and> parse text ps = Returned tree"
  then show "ast (resolve parse text parserOptions) = tree"
    by (simp add: resolve_def pluginSets_def tryPluginSets_first)
qed

theorem default_search_order_witness:
  "calls (resolve sampleParse ''let a = 1; /* b */ // c'' sampleOptions) =
     take 3 DEFAULT_PLUGIN_SETS
   \<and> ast (resolve sampleParse ''let a = 1; /* b */ // c'' sampleOptions) = Some sampleTree"
proof -
  note order = default_search_order [of sampleOptions sampleParse "''let a = 1; /* b */ // c''"]
  have none: "plugins sampleOptions = None" by (simp add: sampleOptions_def)
  from order none
  have "calls (resolve sampleParse ''let a = 1; /* b */ // c'' sampleOptions) =
      take (Suc (length (takeWhile (throws sampleParse ''let a = 1; /* b */ // c'')
        DEFAULT_PLUGIN_SETS))) DEFAULT_PLUGIN_SETS"
    by blast
  then have "calls (resolve sampleParse ''let a = 1; /* b */ // c'' sampleOptions) =
      take 3 DEFAULT_PLUGIN_SETS"
    by (simp only: sample_failing_prefix) (simp add: DEFAULT_PLUGIN_SETS_literal)
  moreover from order none sample_first_success
  have "ast (resolve sampleParse ''let a = 1; /* b */ // c'' sampleOptions) = Some sampleTree"
    by blast
  ultimately show ?thesis by simp
qed

text \<open>
  C7 (idempotence), as stated, fails. The text \<open>a /*\<newline>*/ ++b\<close> parses and its one
  comment is removed; the text that is left, \<open>a  ++b\<close>, holds no comment (it has no
  \<open>/\<close> at all), yet the second call does not report \<open>commentCount = 0\<close>: it fails,
  because removing the comment removed the line break that ended the statement.
\<close>

theorem idempotence_counterexample:
  "stripCommentsFromCode lineBreakParse (JString lineBreakText) defaultOptions =
     Inr \<lparr>code = ''a  ++b'', commentCount = 1, removedChars = 5,
          removedRanges = [\<lparr>start = 2, end' = 7\<rparr>]\<rparr>
   \<and> CHR ''/'' \<notin> set ''a  ++b''
   \<and> stripCommentsFromCode lineBreakParse (JString ''a  ++b'') defaultOptions =
     Inl (Error ''Failed to parse unknown: Missing semicolon. (1:5)''
                (Some (Thrown (Some ''Missing semicolon. (1:5)''))))"
  by (simp add: lineBreak_first lineBreak_second)

text \<open>
  C7 as amended. If a first call on \<open>x\<close> succeeds, and the text it returns parses again
  with no comment found in it, then a second call on that text reports
  \<open>commentCount = 0\<close>, removes nothing and returns the text unchanged; that text is \<open>x\<close>
  with the ranges excised by the first call cut out.
\<close>

theorem idempotence_when_reparsed:
  assumes "stripCommentsFromCode parse (JString x) parserOptions = Inr once"
    and "ast (resolve parse (code once) parserOptions) = Some tree"
    and "commentsOf tree = []"
  shows "stripCommentsFromCode parse (JString (code once)) parserOptions =
      Inr \<lparr>code = code once, commentCount = 0, removedChars = 0, removedRanges = []\<rparr>
    \<and> code once = surviving x (excised 0 (removedRanges once))"
proof -
  from assms(1) obtain first where first: "ast (resolve parse x parserOptions) = Some first"
    by (rule strip_Inr_parsed)
  let ?R = "normalizeRanges (commentsOf first)"
  from assms(1) have once: "code once = output' (removeRanges x ?R)" "removedRanges once = ?R"
    by (auto simp: strip_parsed [OF first])
  have "\<forall>r \<in> set ?R. start r < end' r"
    using normalizeRanges_proper by blast
  then have "code once = surviving x (excised 0 (removedRanges once))"
    by (simp add: once removeRanges_output)
  moreover have "stripCommentsFromCode parse (JString (code once)) parserOptions =
      Inr \<lparr>code = code once, commentCount = 0, removedChars = 0, removedRanges = []\<rparr>"
    using assms(2,3) by (simp add: stripCommentsFromCode_def)
  ultimately show ?thesis by simp
qed

theorem idempotence_when_reparsed_witness:
  "stripCommentsFromCode sampleParse (JString ''let a = 1;  '') sampleOptions =
      Inr \<lparr>code = ''let a = 1;  '', commentCount = 0, removedChars = 0, removedRanges = []\<rparr>
    \<and> ''let a = 1;  '' = surviving ''let a = 1; /* b */ // c''
          (excised 0 [\<lparr>start = 11, end' = 18\<rparr>, \<lparr>start = 19, end' = 23\<rparr>])"
proof -
  have tree: "ast (resolve sampleParse (code sampleResult) sampleOptions)
      = Some \<lparr>comments = Some []\<rparr>"
    using sample_clean_ast by (simp add: sampleResult_def)
  have "commentsOf \<lparr>comments = Some []\<rparr> = []" by (simp add: commentsOf_def)
  from idempotence_when_reparsed [OF sample_strip tree this]
  have second: "stripCommentsFromCode sampleParse (JString (code sampleResult)) sampleOptions =
      Inr \<lparr>code = code sampleResult, commentCount = 0, removedChars = 0, removedRanges = []\<rparr>"
    and kept: "code sampleResult =
      surviving ''let a = 1; /* b */ // c'' (excised 0 (removedRanges sampleResult))"
    by blast+
  have result: "code sampleResult = ''let a = 1;  ''"
    "removedRanges sampleResult = [\<lparr>start = 11, end' = 18\<rparr>, \<lparr>start = 19, end' = 23\<rparr>]"
    by (simp_all add: sampleResult_def)
  from second kept show ?thesis unfolding result by (rule conjI)
qed

text \<open>
  C8 (input type check). For an argument that is not a string the call fails with the
  \<open>TypeError\<close> \<open>Code must be a string.\<close>, whatever the parser and the options are: the
  parser has no part in the result.
\<close>

theorem input_type_check:
  assumes "typeof input \<noteq> ''string''"
  shows "stripCommentsFromCode parse input parserOptions
    = Inl (TypeError ''Code must be a string.'')"
  using assms by (cases input) (simp_all add: stripCommentsFromCode_def)

theorem input_type_check_witness:
  "stripCommentsFromCode sampleParse (JNumber 42) sampleOptions
    = Inl (TypeError ''Code must be a string.'')"
proof -
  have "typeof (JNumber 42) \<noteq> ''string''" by simp
  then show ?thesis by (rule input_type_check)
qed

text \<open>
  C9 (the file name does not interfere). The outcome of a call with file name \<open>g\<close> is
  determined by the outcome of the call with file name \<open>f\<close>: the same result on success,
  the same \<open>TypeError\<close>, and on a parse failure the same error up to the file name in its
  message.
\<close>

theorem filename_noninterference:
  "stripCommentsFromCode parse input (parserOptions\<lparr>filename := g\<rparr>) =
    (case stripCommentsFromCode parse input (parserOptions\<lparr>filename := f\<rparr>) of
       Inr res \<Rightarrow> Inr res
     | Inl (TypeError msg) \<Rightarrow> Inl (TypeError msg)
     | Inl (Error msg cause) \<Rightarrow>
         Inl (Error (''Failed to parse ''
                      @ (case g of None \<Rightarrow> ''unknown'' | Some n \<Rightarrow> n)
                      @ '': '' @ lastMessage cause)
                    cause))"
proof (cases input)
  case (JString src)
  show ?thesis
  proof (cases "ast (resolve parse src parserOptions)")
    case None
    then show ?thesis
      by (simp add: JString strip_unparsed resolve_filename)
  next
    case (Some tree)
    then show ?thesis
      by (simp add: JString strip_parsed resolve_filename)
  qed
qed (simp_all add: stripCommentsFromCode_def)

theorem filename_noninterference_witness:
  "stripCommentsFromCode sampleParse (JString ''let a = '')
      (sampleOptions\<lparr>filename := Some ''b.ts''\<rparr>) =
    Inl (Error ''Failed to parse b.ts: Unexpected token (1:0)''
               (Some (Thrown (Some ''Unexpected token (1:0)''))))
   \<and> stripCommentsFromCode sampleParse (JString ''let a = 1; /* b */ // c'')
        (sampleOptions\<lparr>filename := None\<rparr>) = Inr sampleResult"
proof -
  have same: "sampleOptions\<lparr>filename := Some ''a.js''\<rparr> = sampleOptions"
    by (simp add: sampleOptions_def)
  have "stripCommentsFromCode sampleParse (JString ''let a = '')
      (sampleOptions\<lparr>filename := Some ''b.ts''\<rparr>) =
    Inl (Error ''Failed to parse b.ts: Unexpected token (1:0)''
               (Some (Thrown (Some ''Unexpected token (1:0)''))))"
    using filename_noninterference [of sampleParse "JString ''let a = ''" "Some ''b.ts''"
        sampleOptions "Some ''a.js''"]
    by (simp add: same sample_rejected_strip)
  moreover have "stripCommentsFromCode sampleParse (JString ''let a = 1; /* b */ // c'')
        (sampleOptions\<lparr>filename := None\<rparr>) = Inr sampleResult"
    using filename_noninterference [of sampleParse "JString ''let a = 1; /* b */ // c''"
        None sampleOptions "Some ''a.js''"]
    by (simp add: same sample_strip)
  ultimately show ?thesis by simp
qed

text \<open>
  C10 (invariant of the result). On success \<open>commentCount\<close> is the length of
  \<open>removedRanges\<close>; \<open>removedRanges\<close> is sorted by \<open>start\<close> and each entry has
  \<open>start < end\<close>; \<open>removedChars\<close> is the total length of the entries the eraser excises,
  hence at most the total length of \<open>removedRanges\<close>, and equal to it when the entries are
  pairwise non-overlapping and none starts before position 0 (the parser reports positions
  of the text).
\<close>

theorem strip_result_invariant:
  assumes "stripCommentsFromCode parse (JString text) parserOptions = Inr res"
  shows "commentCount res = length (removedRanges res)
     \<and> sorted (map start (removedRanges res))
     \<and> (\<forall>r \<in> set (removedRanges res). start r < end' r)
     \<and> removedChars res = totalLength (excised 0 (removedRanges res))
     \<and> removedChars res \<le> totalLength (removedRanges res)
     \<and> (nonOverlapping (removedRanges res) \<and> (\<forall>r \<in> set (removedRanges res). 0 \<le> start r)
          \<longrightarrow> removedChars res = totalLength (removedRanges res))"
proof -
  from assms obtain tree where tree: "ast (resolve parse text parserOptions) = Some tree"
    by (rule strip_Inr_parsed)
  let ?R = "normalizeRanges (commentsOf tree)"
  from assms have res: "removedRanges res = ?R" "commentCount res = length ?R"
    "removedChars res = removed (removeRanges text ?R)"
    by (auto simp: strip_parsed [OF tree])
  have proper: "\<forall>r \<in> set ?R. start r < end' r"
    using normalizeRanges_proper by blast
  have "nonOverlapping ?R \<and> (\<forall>r \<in> set ?R. 0 \<le> start r) \<longrightarrow> excised 0 ?R = ?R"
    using excised_all [OF normalizeRanges_sorted, of "commentsOf tree" 0] proper by blast
  then show ?thesis
    using proper totalLength_excised_le [OF proper, of 0]
    by (auto simp: res removeRanges_removed normalizeRanges_sorted)
qed

theorem strip_result_invariant_witness:
  "removedChars sampleResult = totalLength (removedRanges sampleResult)
    \<and> removedChars overlapResult < totalLength (removedRanges overlapResult)"
proof -
  have "nonOverlapping (removedRanges sampleResult)
      \<and> (\<forall>r \<in> set (removedRanges sampleResult). 0 \<le> start r)"
    by (simp add: sampleResult_def overlaps_def)
  with strip_result_invariant [OF sample_strip]
  have "removedChars sampleResult = totalLength (removedRanges sampleResult)" by blast
  moreover from strip_result_invariant [OF sample_overlap]
  have "removedChars overlapResult = totalLength (excised 0 (removedRanges overlapResult))"
    by blast
  then have "removedChars overlapResult < totalLength (removedRanges overlapResult)"
    by (simp add: overlapResult_def sampleRanges_def totalLength_def)
  ultimately show ?thesis by simp
qed

end
